theory Spec2Isabelle
  imports Main "HOL-Library.AList"
begin

section \<open>Python values and the builtins the handlers use\<close>

text \<open>
  The handlers of \<^verbatim>\<open>context_visualizer/api\<close> reduce decoded JSON/YAML data. A field value
  of a telemetry record is a scalar: \<^verbatim>\<open>None\<close>, a \<^verbatim>\<open>bool\<close>, an unbounded \<^verbatim>\<open>int\<close> or a
  \<^verbatim>\<open>str\<close> (a sequence of code points below 256). Floating point numbers are outside this
  embedding. An integer is taken to have at most 4300 decimal digits, which is all a
  decoder running under the interpreter's default conversion limit delivers, so that
  \<^verbatim>\<open>str\<close> of an integer does not raise. A telemetry record is a \<^verbatim>\<open>dict\<close> from string keys to scalars, kept as an
  association list in insertion order and read with \<open>map_of\<close>. A container's report, and an
  element of a list report, is a scalar, a dict or a list.
\<close>

datatype scalar = SNone | SBool bool | SInt int | SStr string

type_synonym dict = "(string \<times> scalar) list"

datatype pyval = PAtom scalar | PDict dict | PList "pyval list"

datatype exn = TypeError | ValueError | AttributeError | OtherError string

text \<open>\<^verbatim>\<open>d.get(k)\<close>, which is \<^verbatim>\<open>None\<close> for a missing key, and \<^verbatim>\<open>d.get(k, default)\<close>.\<close>

definition dict_get :: "dict \<Rightarrow> string \<Rightarrow> scalar" where
  "dict_get d k = (case map_of d k of None \<Rightarrow> SNone | Some v \<Rightarrow> v)"

definition dict_get_default :: "dict \<Rightarrow> string \<Rightarrow> scalar \<Rightarrow> scalar" where
  "dict_get_default d k dflt = (case map_of d k of None \<Rightarrow> dflt | Some v \<Rightarrow> v)"

text \<open>\<^verbatim>\<open>str(n)\<close> for an integer: the decimal digits, with a minus sign when negative.\<close>

definition digit_char :: "nat \<Rightarrow> char" where
  "digit_char d = char_of (48 + d)"

function digits_of :: "nat \<Rightarrow> string" where
  "digits_of n = (if n < 10 then [digit_char n] else digits_of (n div 10) @ [digit_char (n mod 10)])"
  by pat_completeness auto
termination
  by (relation "measure (\<lambda>n. n)") auto

declare digits_of.simps [simp del]

definition str_of_int :: "int \<Rightarrow> string" where
  "str_of_int i = (if i < 0 then CHR ''-'' # digits_of (nat (- i)) else digits_of (nat i))"

text \<open>\<^verbatim>\<open>str(x)\<close> on a scalar.\<close>

fun py_str :: "scalar \<Rightarrow> string" where
  "py_str SNone = ''None''"
| "py_str (SBool b) = (if b then ''True'' else ''False'')"
| "py_str (SInt i) = str_of_int i"
| "py_str (SStr s) = s"

text \<open>
  \<^verbatim>\<open>int(s)\<close> on a string, base 10: surrounding whitespace is stripped (tab, line feed,
  vertical tab, form feed, carriage return, space, and the code points 0x85 and 0xA0), one
  optional sign follows, then decimal digits in which single underscores may separate
  digits. Anything else is \<^verbatim>\<open>ValueError\<close>, here \<open>None\<close>, and so is a string of more
  than 4300 digits, leading zeros counted: the interpreter's default limit
  \<^verbatim>\<open>sys.get_int_max_str_digits()\<close>.
\<close>

definition is_space :: "char \<Rightarrow> bool" where
  "is_space c = (of_char c \<in> {9, 10, 11, 12, 13, 32, 133, 160 :: nat})"

definition is_digit :: "char \<Rightarrow> bool" where
  "is_digit c = (48 \<le> (of_char c :: nat) \<and> (of_char c :: nat) \<le> 57)"

definition digit_val :: "char \<Rightarrow> nat" where
  "digit_val c = of_char c - 48"

definition strip :: "string \<Rightarrow> string" where
  "strip s = rev (dropWhile is_space (rev (dropWhile is_space s)))"

fun after_digit :: "nat \<Rightarrow> string \<Rightarrow> nat option" where
  "after_digit acc [] = Some acc"
| "after_digit acc [c] = (if is_digit c then Some (10 * acc + digit_val c) else None)"
| "after_digit acc (c # d # ds) =
     (if is_digit c then after_digit (10 * acc + digit_val c) (d # ds)
      else if c = CHR ''_'' \<and> is_digit d then after_digit (10 * acc + digit_val d) ds
      else None)"

definition parse_digits :: "string \<Rightarrow> nat option" where
  "parse_digits s =
     (case s of [] \<Rightarrow> None
      | c # cs \<Rightarrow> if is_digit c then after_digit (digit_val c) cs else None)"

definition max_str_digits :: nat where
  "max_str_digits = 4300"

definition int_of_str :: "string \<Rightarrow> int option" where
  "int_of_str s =
     (let t = strip s in
      if length (filter is_digit t) > max_str_digits then None
      else (case t of
              [] \<Rightarrow> None
            | c # cs \<Rightarrow>
                if c = CHR ''-'' then map_option (\<lambda>n. - int n) (parse_digits cs)
                else if c = CHR ''+'' then map_option int (parse_digits cs)
                else map_option int (parse_digits (c # cs))))"

text \<open>\<^verbatim>\<open>int(x)\<close> on a scalar: \<^verbatim>\<open>int(None)\<close> is a \<^verbatim>\<open>TypeError\<close>, an unparseable string a
  \<^verbatim>\<open>ValueError\<close>.\<close>

fun py_int :: "scalar \<Rightarrow> exn + int" where
  "py_int SNone = Inl TypeError"
| "py_int (SBool b) = Inr (if b then 1 else 0)"
| "py_int (SInt i) = Inr i"
| "py_int (SStr s) = (case int_of_str s of None \<Rightarrow> Inl ValueError | Some i \<Rightarrow> Inr i)"

text \<open>The numeric value of a scalar that is an \<^verbatim>\<open>int\<close> (\<^verbatim>\<open>bool\<close> is a subclass of
  \<^verbatim>\<open>int\<close>).\<close>

fun as_int :: "scalar \<Rightarrow> int option" where
  "as_int (SInt i) = Some i"
| "as_int (SBool b) = Some (if b then 1 else 0)"
| "as_int _ = None"

text \<open>\<^verbatim>\<open>a > b\<close> on strings: lexicographic on code points.\<close>

fun str_gt :: "string \<Rightarrow> string \<Rightarrow> bool" where
  "str_gt [] _ = False"
| "str_gt (a # as) [] = True"
| "str_gt (a # as) (b # bs) =
     (if (of_char a :: nat) = of_char b then str_gt as bs else (of_char a :: nat) > of_char b)"

text \<open>\<^verbatim>\<open>a > b\<close> on scalars: numbers with numbers, strings with strings, a
  \<^verbatim>\<open>TypeError\<close> otherwise.\<close>

definition py_gt :: "scalar \<Rightarrow> scalar \<Rightarrow> exn + bool" where
  "py_gt a b =
     (case (as_int a, as_int b) of
        (Some x, Some y) \<Rightarrow> Inr (x > y)
      | _ \<Rightarrow> (case (a, b) of (SStr s, SStr t) \<Rightarrow> Inr (str_gt s t) | _ \<Rightarrow> Inl TypeError))"

text \<open>Truth value of a scalar, as \<^verbatim>\<open>or\<close> tests it.\<close>

fun truthy :: "scalar \<Rightarrow> bool" where
  "truthy SNone = False"
| "truthy (SBool b) = b"
| "truthy (SInt i) = (i \<noteq> 0)"
| "truthy (SStr s) = (s \<noteq> [])"

text \<open>One step of \<^verbatim>\<open>sum\<close>: the integer accumulator plus a scalar.\<close>

definition py_add :: "int \<Rightarrow> scalar \<Rightarrow> exn + int" where
  "py_add acc v = (case as_int v of None \<Rightarrow> Inl TypeError | Some i \<Rightarrow> Inr (acc + i))"

text \<open>Sequencing of a step that may raise: the first exception ends the computation.\<close>

definition and_then :: "exn + 'a \<Rightarrow> ('a \<Rightarrow> exn + 'b) \<Rightarrow> exn + 'b" where
  "and_then m f = (case m of Inl e \<Rightarrow> Inl e | Inr x \<Rightarrow> f x)"

section \<open>Worker aggregation: \<^verbatim>\<open>api/workers.py\<close> and \<^verbatim>\<open>api/system.py\<close>\<close>

text \<open>
  The body of the flattening loop: a list report extends the worker list with all its
  elements, a dict report is appended, any other report adds nothing.
\<close>

fun worker_records :: "pyval \<Rightarrow> pyval list" where
  "worker_records (PList xs) = xs"
| "worker_records (PDict d) = [PDict d]"
| "worker_records (PAtom a) = []"

fun flatten_workers :: "pyval list \<Rightarrow> (string \<times> pyval) list \<Rightarrow> pyval list" where
  "flatten_workers workers [] = workers"
| "flatten_workers workers ((cid, data) # rest) =
     flatten_workers (workers @ worker_records data) rest"

text \<open>
  \<^verbatim>\<open>sum(w.get(k, 0) for w in workers)\<close>, from the accumulator \<open>acc\<close>: \<^verbatim>\<open>w.get\<close> is an
  \<^verbatim>\<open>AttributeError\<close> on an element that is not a dict, and adding a value that is not a
  number a \<^verbatim>\<open>TypeError\<close>.
\<close>

fun sum_field :: "string \<Rightarrow> int \<Rightarrow> pyval list \<Rightarrow> exn + int" where
  "sum_field k acc [] = Inr acc"
| "sum_field k acc (PDict d # ws) =
     and_then (py_add acc (dict_get_default d k (SInt 0))) (\<lambda>acc'. sum_field k acc' ws)"
| "sum_field k acc (_ # ws) = Inl AttributeError"

text \<open>The result of \<^verbatim>\<open>get_workers\<close>: status 200 with the worker list and the summary
  \<^verbatim>\<open>{count, queued, blocked, processed}\<close>, or status 503 with \<^verbatim>\<open>{error}\<close>.\<close>

datatype workers_result =
    WorkersOk "pyval list" nat int int int
  | WorkersError string

text \<open>The fetch \<^verbatim>\<open>chimaera_client.get_worker_stats()\<close> either raises, \<open>Inl\<close> carrying
  \<^verbatim>\<open>str(exc)\<close>, or returns the mapping from container id to report, in the order
  \<^verbatim>\<open>raw.items()\<close> yields it.\<close>

type_synonym raw = "(string \<times> pyval) list"

definition get_workers :: "string + raw \<Rightarrow> exn + workers_result" where
  "get_workers fetch =
     (case fetch of
        Inl exc \<Rightarrow> Inr (WorkersError exc)
      | Inr raw \<Rightarrow>
          (let workers = flatten_workers [] raw in
           and_then (sum_field ''queued'' 0 workers) (\<lambda>total_queued.
           and_then (sum_field ''blocked'' 0 workers) (\<lambda>total_blocked.
           and_then (sum_field ''processed'' 0 workers) (\<lambda>total_processed.
           Inr (WorkersOk workers (length workers)
                  total_queued total_blocked total_processed))))))"

text \<open>The result of \<^verbatim>\<open>get_system\<close>: status 200 with
  \<^verbatim>\<open>{connected, workers, queued, blocked, processed}\<close>, or status 503 with
  \<^verbatim>\<open>{connected, error}\<close>.\<close>

datatype system_result =
    SystemOk bool nat int int int
  | SystemError bool string

text \<open>The part of \<^verbatim>\<open>get_system\<close> after a fetch that returned.\<close>

definition system_info :: "raw \<Rightarrow> exn + system_result" where
  "system_info raw =
     (let workers = flatten_workers [] raw in
      and_then (sum_field ''queued'' 0 workers) (\<lambda>queued.
      and_then (sum_field ''blocked'' 0 workers) (\<lambda>blocked.
      and_then (sum_field ''processed'' 0 workers) (\<lambda>processed.
      Inr (SystemOk True (length workers) queued blocked processed)))))"

text \<open>\<open>connected\<close> is what \<^verbatim>\<open>chimaera_client.is_connected()\<close> returned.\<close>

definition get_system :: "bool \<Rightarrow> string + raw \<Rightarrow> exn + system_result" where
  "get_system connected fetch =
     (if \<not> connected then
        (case fetch of
           Inl exc \<Rightarrow> Inr (SystemError False exc)
         | Inr raw \<Rightarrow> system_info raw)
      else
        (case fetch of
           Inl exc \<Rightarrow> Inr (SystemError True exc)
         | Inr raw \<Rightarrow> system_info raw))"

section \<open>Node reconciliation: \<^verbatim>\<open>api/topology.py\<close>\<close>

text \<open>The working dict \<^verbatim>\<open>nodes\<close>, from \<^verbatim>\<open>nid_str\<close> to the entry kept for it, in insertion
  order: assigning to a key that is present keeps its position.\<close>

type_synonym nodes = "(string \<times> dict) list"

text \<open>The key under which an entry of container \<open>cid\<close> is filed: \<^verbatim>\<open>str(node_id)\<close>, or the
  container id when \<^verbatim>\<open>entry.get("node_id")\<close> is \<^verbatim>\<open>None\<close>.\<close>

definition node_key :: "string \<Rightarrow> dict \<Rightarrow> string" where
  "node_key cid entry =
     (let nid = dict_get entry ''node_id'' in if nid = SNone then cid else py_str nid)"

text \<open>The body of the inner loop, for an entry that is a dict.\<close>

definition keep_latest :: "string \<Rightarrow> nodes \<Rightarrow> dict \<Rightarrow> exn + nodes" where
  "keep_latest cid nodes entry =
     (let nid_str = node_key cid entry in
      case map_of nodes nid_str of
        None \<Rightarrow> Inr (AList.update nid_str entry nodes)
      | Some prev \<Rightarrow>
          and_then (py_gt (dict_get_default entry ''event_id'' (SInt 0))
                          (dict_get_default prev ''event_id'' (SInt 0)))
            (\<lambda>newer. Inr (if newer then AList.update nid_str entry nodes else nodes)))"

text \<open>The inner loop over the entries of one container: an entry that is not a dict is
  skipped.\<close>

fun scan_entries :: "string \<Rightarrow> nodes \<Rightarrow> pyval list \<Rightarrow> exn + nodes" where
  "scan_entries cid nodes [] = Inr nodes"
| "scan_entries cid nodes (PDict entry # rest) =
     and_then (keep_latest cid nodes entry) (\<lambda>nodes'. scan_entries cid nodes' rest)"
| "scan_entries cid nodes (_ # rest) = scan_entries cid nodes rest"

text \<open>The outer loop over \<^verbatim>\<open>raw.items()\<close>: a report that is not a list is skipped.\<close>

fun scan_containers :: "nodes \<Rightarrow> raw \<Rightarrow> exn + nodes" where
  "scan_containers nodes [] = Inr nodes"
| "scan_containers nodes ((cid, PList entries) # rest) =
     and_then (scan_entries cid nodes entries) (\<lambda>nodes'. scan_containers nodes' rest)"
| "scan_containers nodes ((cid, _) # rest) = scan_containers nodes rest"

record node_stat =
  node_id :: int
  hostname :: scalar
  ip_address :: scalar
  cpu_usage_pct :: scalar
  ram_usage_pct :: scalar
  gpu_count :: scalar
  gpu_usage_pct :: scalar
  hbm_usage_pct :: scalar

text \<open>The numeric \<^verbatim>\<open>node_id\<close> of an item of \<^verbatim>\<open>nodes\<close>: \<^verbatim>\<open>int(raw_nid)\<close> unguarded when
  the entry has a \<^verbatim>\<open>node_id\<close>, else \<^verbatim>\<open>int(nid_str)\<close> with \<^verbatim>\<open>ValueError\<close> and
  \<^verbatim>\<open>TypeError\<close> caught and replaced by 0.\<close>

definition numeric_node_id :: "string \<Rightarrow> dict \<Rightarrow> exn + int" where
  "numeric_node_id nid_str entry =
     (let raw_nid = dict_get entry ''node_id'' in
      if raw_nid \<noteq> SNone then py_int raw_nid
      else (case py_int (SStr nid_str) of
              Inl e \<Rightarrow> if e = ValueError \<or> e = TypeError then Inr 0 else Inl e
            | Inr i \<Rightarrow> Inr i))"

text \<open>\<^verbatim>\<open>entry.get("hostname") or local_hostname\<close>.\<close>

definition hostname_or :: "dict \<Rightarrow> string \<Rightarrow> scalar" where
  "hostname_or entry local_hostname =
     (let h = dict_get entry ''hostname'' in if truthy h then h else SStr local_hostname)"

definition render_node :: "string \<Rightarrow> string \<times> dict \<Rightarrow> exn + node_stat" where
  "render_node local_hostname item =
     (case item of (nid_str, entry) \<Rightarrow>
        and_then (numeric_node_id nid_str entry) (\<lambda>i.
          Inr \<lparr> node_id = i,
                hostname = hostname_or entry local_hostname,
                ip_address = dict_get_default entry ''ip_address'' (SStr []),
                cpu_usage_pct = dict_get_default entry ''cpu_usage_pct'' (SInt 0),
                ram_usage_pct = dict_get_default entry ''ram_usage_pct'' (SInt 0),
                gpu_count = dict_get_default entry ''gpu_count'' (SInt 0),
                gpu_usage_pct = dict_get_default entry ''gpu_usage_pct'' (SInt 0),
                hbm_usage_pct = dict_get_default entry ''hbm_usage_pct'' (SInt 0) \<rparr>))"

text \<open>The second loop, over \<^verbatim>\<open>nodes.items()\<close>.\<close>

fun render_nodes :: "string \<Rightarrow> nodes \<Rightarrow> exn + node_stat list" where
  "render_nodes local_hostname [] = Inr []"
| "render_nodes local_hostname (item # rest) =
     and_then (render_node local_hostname item) (\<lambda>n.
     and_then (render_nodes local_hostname rest) (\<lambda>ns. Inr (n # ns)))"

text \<open>The result of \<^verbatim>\<open>get_topology\<close>: status 200 with \<^verbatim>\<open>{nodes}\<close>, or status 503 with
  \<^verbatim>\<open>{error}\<close>. \<open>local_hostname\<close> is what \<^verbatim>\<open>socket.gethostname()\<close> returns.\<close>

datatype topology_result =
    TopologyOk "node_stat list"
  | TopologyError string

definition get_topology :: "string \<Rightarrow> string + raw \<Rightarrow> exn + topology_result" where
  "get_topology local_hostname fetch =
     (case fetch of
        Inl exc \<Rightarrow> Inr (TopologyError exc)
      | Inr raw \<Rightarrow>
          and_then (scan_containers [] raw) (\<lambda>nodes.
          and_then (render_nodes local_hostname nodes) (\<lambda>result.
          Inr (TopologyOk result))))"

text \<open>
  What the two loops of \<^verbatim>\<open>get_topology\<close> hand to the reconciliation step: the dict
  elements of a list report, nothing for any other report; and the candidates of a whole
  fetch in the order they are met, each with its container id.
\<close>

fun dict_items :: "pyval list \<Rightarrow> dict list" where
  "dict_items [] = []"
| "dict_items (PDict d # rest) = d # dict_items rest"
| "dict_items (_ # rest) = dict_items rest"

fun node_entries :: "pyval \<Rightarrow> dict list" where
  "node_entries (PList xs) = dict_items xs"
| "node_entries (PDict d) = []"
| "node_entries (PAtom a) = []"

fun candidates :: "raw \<Rightarrow> (string \<times> dict) list" where
  "candidates [] = []"
| "candidates ((cid, report) # rest) = map (Pair cid) (node_entries report) @ candidates rest"

fun keep_all :: "nodes \<Rightarrow> (string \<times> dict) list \<Rightarrow> exn + nodes" where
  "keep_all nodes [] = Inr nodes"
| "keep_all nodes ((cid, entry) # rest) =
     and_then (keep_latest cid nodes entry) (\<lambda>nodes'. keep_all nodes' rest)"


section \<open>Pool listing: \<^verbatim>\<open>api/pools.py\<close> and \<^verbatim>\<open>api/config.py\<close>\<close>

text \<open>A parsed YAML document: scalars, sequences and mappings with string keys.\<close>

datatype yaml = YAtom scalar | YList "yaml list" | YMap "(string \<times> yaml) list"

text \<open>
  What \<^verbatim>\<open>_load_config\<close> reads: the two environment variables, the path
  \<^verbatim>\<open>str(Path.home() / ".chimaera" / "chimaera.yaml")\<close>, and the regular files, each with
  what \<^verbatim>\<open>yaml.safe_load\<close> makes of it (\<open>Inl\<close> when opening or parsing raises).
\<close>

record config_env =
  chi_server_conf :: "string option"
  wrp_runtime_conf :: "string option"
  home_conf :: string
  files :: "(string \<times> (exn + yaml)) list"

text \<open>The loop over the candidate paths; \<^verbatim>\<open>return None\<close> when none is a file.\<close>

fun first_config :: "(string \<times> (exn + yaml)) list \<Rightarrow> string option list \<Rightarrow> exn + yaml" where
  "first_config fs [] = Inr (YAtom SNone)"
| "first_config fs (None # rest) = first_config fs rest"
| "first_config fs (Some path # rest) =
     (case (if path \<noteq> [] then map_of fs path else None) of
        Some loaded \<Rightarrow> loaded
      | None \<Rightarrow> first_config fs rest)"

definition config_candidates :: "config_env \<Rightarrow> string option list" where
  "config_candidates env = [chi_server_conf env, wrp_runtime_conf env, Some (home_conf env)]"

definition load_config :: "config_env \<Rightarrow> exn + yaml" where
  "load_config env = first_config (files env) (config_candidates env)"

text \<open>Whether one of the candidate paths is a file.\<close>

definition config_found :: "config_env \<Rightarrow> bool" where
  "config_found env =
     list_ex (\<lambda>c. case c of None \<Rightarrow> False | Some path \<Rightarrow> path \<noteq> [] \<and> map_of (files env) path \<noteq> None)
       (config_candidates env)"

fun yaml_truthy :: "yaml \<Rightarrow> bool" where
  "yaml_truthy (YAtom a) = truthy a"
| "yaml_truthy (YList xs) = (xs \<noteq> [])"
| "yaml_truthy (YMap kvs) = (kvs \<noteq> [])"

text \<open>\<^verbatim>\<open>cfg.get("compose", []) or []\<close> on a mapping.\<close>

definition compose_section :: "(string \<times> yaml) list \<Rightarrow> yaml" where
  "compose_section cfg =
     (let compose = (case map_of cfg ''compose'' of None \<Rightarrow> YList [] | Some v \<Rightarrow> v)
      in if yaml_truthy compose then compose else YList [])"

text \<open>What \<^verbatim>\<open>for entry in compose\<close> iterates over: the elements of a list, the keys of a
  mapping, the characters of a string; any other value is not iterable.\<close>

fun iterate :: "yaml \<Rightarrow> exn + yaml list" where
  "iterate (YList xs) = Inr xs"
| "iterate (YMap kvs) = Inr (map (\<lambda>kv. YAtom (SStr (fst kv))) kvs)"
| "iterate (YAtom (SStr s)) = Inr (map (\<lambda>c. YAtom (SStr [c])) s)"
| "iterate (YAtom _) = Inl TypeError"

record pool =
  mod_name :: yaml
  pool_name :: yaml
  pool_id :: yaml
  pool_query :: yaml

definition yaml_get_default :: "(string \<times> yaml) list \<Rightarrow> string \<Rightarrow> yaml \<Rightarrow> yaml" where
  "yaml_get_default d k dflt = (case map_of d k of None \<Rightarrow> dflt | Some v \<Rightarrow> v)"

definition descriptor :: "(string \<times> yaml) list \<Rightarrow> pool" where
  "descriptor entry =
     \<lparr> mod_name = yaml_get_default entry ''mod_name'' (YAtom (SStr [])),
       pool_name = yaml_get_default entry ''pool_name'' (YAtom (SStr [])),
       pool_id = yaml_get_default entry ''pool_id'' (YAtom (SStr [])),
       pool_query = yaml_get_default entry ''pool_query'' (YAtom (SStr [])) \<rparr>"

text \<open>The loop over the compose entries: \<^verbatim>\<open>entry.get\<close> is an \<^verbatim>\<open>AttributeError\<close> on an
  entry that is not a mapping.\<close>

fun collect_pools :: "yaml list \<Rightarrow> exn + pool list" where
  "collect_pools [] = Inr []"
| "collect_pools (YMap entry # rest) =
     and_then (collect_pools rest) (\<lambda>pools. Inr (descriptor entry # pools))"
| "collect_pools (_ # rest) = Inl AttributeError"

text \<open>The result of \<^verbatim>\<open>get_pools\<close>: status 200 with \<^verbatim>\<open>{pools}\<close>, or status 404 with
  \<^verbatim>\<open>{error}\<close>.\<close>

datatype pools_result =
    PoolsOk "pool list"
  | PoolsNotFound string

definition get_pools :: "config_env \<Rightarrow> exn + pools_result" where
  "get_pools env =
     and_then (load_config env) (\<lambda>cfg.
       if cfg = YAtom SNone then Inr (PoolsNotFound ''config not found'')
       else (case cfg of
               YMap kvs \<Rightarrow>
                 and_then (iterate (compose_section kvs)) (\<lambda>compose.
                 and_then (collect_pools compose) (\<lambda>pools.
                 Inr (PoolsOk pools)))
             | _ \<Rightarrow> Inl AttributeError))"

section \<open>Readings used in the statements\<close>

text \<open>The integer a worker record contributes for field \<open>k\<close>, a missing field counting as 0;
  \<open>None\<close> when the element is not a record or the field is not an integer.\<close>

definition field_int :: "string \<Rightarrow> pyval \<Rightarrow> int option" where
  "field_int k w = (case w of PDict d \<Rightarrow> as_int (dict_get_default d k (SInt 0)) | _ \<Rightarrow> None)"

text \<open>A WorkerStat: a record whose \<^verbatim>\<open>queued\<close>, \<^verbatim>\<open>blocked\<close> and \<^verbatim>\<open>processed\<close> are integers
  where present.\<close>

definition worker_stat :: "pyval \<Rightarrow> bool" where
  "worker_stat w = (field_int ''queued'' w \<noteq> None \<and> field_int ''blocked'' w \<noteq> None
     \<and> field_int ''processed'' w \<noteq> None)"

definition total :: "string \<Rightarrow> pyval list \<Rightarrow> int" where
  "total k ws = sum_list (map (\<lambda>w. case field_int k w of None \<Rightarrow> 0 | Some i \<Rightarrow> i) ws)"

text \<open>The key of a candidate, a container id paired with one of its entries, and the
  integer its \<^verbatim>\<open>event_id\<close> counts as.\<close>

definition ckey :: "string \<times> dict \<Rightarrow> string" where
  "ckey c = node_key (fst c) (snd c)"





text \<open>The number a string of decimal digits denotes, read from the left.\<close>

definition digits_value :: "nat \<Rightarrow> string \<Rightarrow> nat" where
  "digits_value acc ds = foldl (\<lambda>a c. 10 * a + digit_val c) acc ds"


definition legacy_raw :: raw where
  "legacy_raw = [(''node-a'', PList [PDict [(''ip_address'', SStr ''10.0.0.7'')]])]"

text \<open>The same with a container id that is a number; a node whose two records carry string
  \<^verbatim>\<open>event_id\<close>s; and one whose second record carries a null \<^verbatim>\<open>event_id\<close>.\<close>

definition numbered_raw :: raw where
  "numbered_raw = [(''42'', PList [PDict [(''ip_address'', SStr ''10.0.0.42'')]])]"



text \<open>Configurations: no file at all; a mapping with one compose entry in the home
  directory; an empty document named by \<^verbatim>\<open>CHI_SERVER_CONF\<close>; an empty document in the home
  directory; a mapping without a compose section.\<close>

definition no_config_env :: config_env where
  "no_config_env =
     \<lparr> chi_server_conf = None, wrp_runtime_conf = None,
       home_conf = ''/root/.chimaera/chimaera.yaml'', files = [] \<rparr>"

definition compose_env :: config_env where
  "compose_env =
     \<lparr> chi_server_conf = None, wrp_runtime_conf = None,
       home_conf = ''/root/.chimaera/chimaera.yaml'',
       files = [(''/root/.chimaera/chimaera.yaml'',
                 Inr (YMap [(''compose'',
                   YList [YMap [(''mod_name'', YAtom (SStr ''chimaera_bdev'')),
                                (''pool_name'', YAtom (SStr ''ram'')),
                                (''pool_id'', YAtom (SStr ''300.0''))]])]))] \<rparr>"

definition empty_doc_env :: config_env where
  "empty_doc_env =
     \<lparr> chi_server_conf = Some ''/etc/chimaera.yaml'', wrp_runtime_conf = None,
       home_conf = ''/root/.chimaera/chimaera.yaml'',
       files = [(''/etc/chimaera.yaml'', Inr (YAtom SNone))] \<rparr>"

definition home_empty_env :: config_env where
  "home_empty_env =
     \<lparr> chi_server_conf = None, wrp_runtime_conf = None,
       home_conf = ''/root/.chimaera/chimaera.yaml'',
       files = [(''/root/.chimaera/chimaera.yaml'', Inr (YAtom SNone))] \<rparr>"

definition no_compose_env :: config_env where
  "no_compose_env =
     \<lparr> chi_server_conf = None, wrp_runtime_conf = Some ''/etc/wrp.yaml'',
       home_conf = ''/root/.chimaera/chimaera.yaml'',
       files = [(''/etc/wrp.yaml'', Inr (YMap [(''networking'', YMap [(''port'', YAtom (SInt 9413))])]))] \<rparr>"

section \<open>Properties of the worker aggregation\<close>

lemma and_then_Inr [simp]: "and_then (Inr x) f = f x"
  by (simp add: and_then_def)

lemma and_then_Inl [simp]: "and_then (Inl e) f = Inl e"
  by (simp add: and_then_def)

lemma flatten_workers_acc:
  "flatten_workers ws raw = ws @ concat (map (\<lambda>item. worker_records (snd item)) raw)"
  by (induction ws raw rule: flatten_workers.induct) simp_all

lemma sum_field_total:
  "list_all (\<lambda>w. field_int k w \<noteq> None) ws \<Longrightarrow> sum_field k acc ws = Inr (acc + total k ws)"
proof (induction ws arbitrary: acc)
  case Nil
  then show ?case by (simp add: total_def)
next
  case (Cons w ws)
  from Cons.prems obtain d i where w: "w = PDict d"
      and i: "as_int (dict_get_default d k (SInt 0)) = Some i"
    by (cases w) (auto simp: field_int_def)
  from Cons.prems have rest: "list_all (\<lambda>w. field_int k w \<noteq> None) ws" by simp
  have "sum_field k acc (w # ws) = sum_field k (acc + i) ws"
    using w i by (simp add: py_add_def)
  also have "\<dots> = Inr (acc + i + total k ws)"
    using Cons.IH [OF rest] .
  also have "acc + i + total k ws = acc + total k (w # ws)"
    using w i by (simp add: total_def field_int_def)
  finally show ?case .
qed

lemma sum_field_typed:
  "sum_field k acc ws = Inr t \<Longrightarrow> list_all (\<lambda>w. field_int k w \<noteq> None) ws"
proof (induction ws arbitrary: acc)
  case Nil
  then show ?case by simp
next
  case (Cons w ws)
  show ?case
  proof (cases w)
    case (PDict d)
    with Cons.prems obtain acc' where
      step: "py_add acc (dict_get_default d k (SInt 0)) = Inr acc'"
      and rest: "sum_field k acc' ws = Inr t"
      by (auto simp: and_then_def split: sum.splits)
    from step have "field_int k w \<noteq> None"
      using PDict by (auto simp: py_add_def field_int_def split: option.splits)
    with Cons.IH [OF rest] show ?thesis by simp
  next
    case (PAtom a)
    with Cons.prems show ?thesis by simp
  next
    case (PList xs)
    with Cons.prems show ?thesis by simp
  qed
qed

lemma get_workers_typed:
  assumes "list_all worker_stat (flatten_workers [] raw)"
  shows "get_workers (Inr raw) =
    Inr (WorkersOk (flatten_workers [] raw) (length (flatten_workers [] raw))
          (total ''queued'' (flatten_workers [] raw))
          (total ''blocked'' (flatten_workers [] raw))
          (total ''processed'' (flatten_workers [] raw)))"
proof -
  let ?ws = "flatten_workers [] raw"
  have q: "sum_field ''queued'' 0 ?ws = Inr (total ''queued'' ?ws)"
    using assms sum_field_total [of "''queued''" ?ws 0]
    by (simp add: list_all_iff worker_stat_def)
  have b: "sum_field ''blocked'' 0 ?ws = Inr (total ''blocked'' ?ws)"
    using assms sum_field_total [of "''blocked''" ?ws 0]
    by (simp add: list_all_iff worker_stat_def)
  have p: "sum_field ''processed'' 0 ?ws = Inr (total ''processed'' ?ws)"
    using assms sum_field_total [of "''processed''" ?ws 0]
    by (simp add: list_all_iff worker_stat_def)
  show ?thesis
    by (simp add: get_workers_def Let_def q b p)
qed

text \<open>
  C2. After a fetch that returned, \<^verbatim>\<open>get_workers\<close> answers exactly when every element of
  the flattened worker list is a WorkerStat (otherwise \<^verbatim>\<open>sum\<close> raises), and its answer then
  carries that list, its length as the count, and as each of the three totals the sum over
  the list of the corresponding field, a missing field contributing 0. Nothing is merged:
  the list is the concatenation of the containers' records (\<open>flatten_workers_acc\<close>).
\<close>

theorem worker_totals:
  "get_workers (Inr raw) = Inr r \<longleftrightarrow>
     list_all worker_stat (flatten_workers [] raw) \<and>
     r = WorkersOk (flatten_workers [] raw) (length (flatten_workers [] raw))
           (total ''queued'' (flatten_workers [] raw))
           (total ''blocked'' (flatten_workers [] raw))
           (total ''processed'' (flatten_workers [] raw))"
proof
  assume run: "get_workers (Inr raw) = Inr r"
  let ?ws = "flatten_workers [] raw"
  from run obtain q b p where "sum_field ''queued'' 0 ?ws = Inr q"
    "sum_field ''blocked'' 0 ?ws = Inr b" "sum_field ''processed'' 0 ?ws = Inr p"
    by (auto simp: get_workers_def Let_def and_then_def split: sum.splits)
  then have "list_all (\<lambda>w. field_int ''queued'' w \<noteq> None) ?ws"
    "list_all (\<lambda>w. field_int ''blocked'' w \<noteq> None) ?ws"
    "list_all (\<lambda>w. field_int ''processed'' w \<noteq> None) ?ws"
    by (auto dest: sum_field_typed)
  then have typed: "list_all worker_stat ?ws"
    by (simp add: list_all_iff worker_stat_def)
  from get_workers_typed [OF typed] run typed
  show "list_all worker_stat ?ws \<and>
     r = WorkersOk ?ws (length ?ws) (total ''queued'' ?ws) (total ''blocked'' ?ws)
           (total ''processed'' ?ws)"
    by simp
next
  assume "list_all worker_stat (flatten_workers [] raw) \<and>
     r = WorkersOk (flatten_workers [] raw) (length (flatten_workers [] raw))
           (total ''queued'' (flatten_workers [] raw))
           (total ''blocked'' (flatten_workers [] raw))
           (total ''processed'' (flatten_workers [] raw))"
  then show "get_workers (Inr raw) = Inr r"
    using get_workers_typed by simp
qed

text \<open>The example of the specification: two records, totals 2, 1 and 5.\<close>

theorem worker_totals_witness:
  "list_all worker_stat
     (flatten_workers []
        [(''c1'', PList [PDict [(''queued'', SInt 2), (''processed'', SInt 5)],
                         PDict [(''blocked'', SInt 1)]])])
   \<and> get_workers
       (Inr [(''c1'', PList [PDict [(''queued'', SInt 2), (''processed'', SInt 5)],
                             PDict [(''blocked'', SInt 1)]])])
     = Inr (WorkersOk [PDict [(''queued'', SInt 2), (''processed'', SInt 5)],
                       PDict [(''blocked'', SInt 1)]] 2 2 1 5)"
proof -
  let ?raw = "[(''c1'', PList [PDict [(''queued'', SInt 2), (''processed'', SInt 5)],
                               PDict [(''blocked'', SInt 1)]])]"
  let ?r = "WorkersOk [PDict [(''queued'', SInt 2), (''processed'', SInt 5)],
                       PDict [(''blocked'', SInt 1)]] 2 2 1 5"
  have h: "list_all worker_stat (flatten_workers [] ?raw)"
    by (simp add: worker_stat_def field_int_def dict_get_default_def)
  have r: "?r = WorkersOk (flatten_workers [] ?raw) (length (flatten_workers [] ?raw))
           (total ''queued'' (flatten_workers [] ?raw))
           (total ''blocked'' (flatten_workers [] ?raw))
           (total ''processed'' (flatten_workers [] ?raw))"
    by (simp add: total_def field_int_def dict_get_default_def)
  from worker_totals [of ?raw ?r] h r show ?thesis by blast
qed

text \<open>
  C5, as stated: a failed fetch in \<^verbatim>\<open>get_system\<close> gives a failure whose connectivity flag is
  false, whatever the prior connection state. It fails when \<^verbatim>\<open>is_connected()\<close> was true: the
  failure then carries \<^verbatim>\<open>connected: True\<close>.
\<close>

theorem system_failure_connected_counterexample:
  "get_system True (Inl ''unreachable'') = Inr (SystemError True ''unreachable'')"
  by (simp add: get_system_def)

text \<open>
  C5, amended: a failed fetch in \<^verbatim>\<open>get_system\<close> always gives the failure result, which
  carries the error and, as connectivity flag, what \<^verbatim>\<open>is_connected()\<close> returned before the
  fetch; it is never a result with worker counts.
\<close>

theorem system_failure_flag:
  "get_system connected (Inl exc) = Inr (SystemError connected exc)"
  by (simp add: get_system_def)

section \<open>Properties of the node reconciliation\<close>

text \<open>
  C8. A failed fetch in \<^verbatim>\<open>get_topology\<close> gives the failure result carrying the error, not a
  node list; and a fetch that returned never gives the failure result.
\<close>

theorem topology_failure_explicit:
  "get_topology local_hostname (Inl exc) = Inr (TopologyError exc)
   \<and> get_topology local_hostname (Inr raw) \<noteq> Inr (TopologyError e)"
  by (auto simp: get_topology_def and_then_def split: sum.splits)

text \<open>
  C4. A record whose \<^verbatim>\<open>node_id\<close> is present but not parseable as an integer should not fail
  the query. In the code \<^verbatim>\<open>int(raw_nid)\<close> is not guarded, unlike \<^verbatim>\<open>int(nid_str)\<close> a few lines
  below it: the \<^verbatim>\<open>ValueError\<close> leaves the handler.
\<close>

theorem topology_unparseable_node_id_raises:
  "get_topology ''host'' (Inr [(''c1'', PList [PDict [(''node_id'', SStr ''abc'')]])])
   = Inl ValueError"
  by code_simp

text \<open>The two loops of \<^verbatim>\<open>get_topology\<close> are one pass of \<open>keep_latest\<close> over the candidates.\<close>

lemma scan_entries_keep_all:
  "scan_entries cid nodes xs = keep_all nodes (map (Pair cid) (dict_items xs))"
  by (induction cid nodes xs rule: scan_entries.induct) simp_all

lemma keep_all_append:
  "keep_all nodes (xs @ ys) = and_then (keep_all nodes xs) (\<lambda>nodes'. keep_all nodes' ys)"
proof (induction xs arbitrary: nodes)
  case Nil
  then show ?case by simp
next
  case (Cons x xs)
  obtain cid entry where x: "x = (cid, entry)" by (cases x)
  show ?case
    by (cases "keep_latest cid nodes entry") (simp_all add: x Cons.IH)
qed

lemma scan_containers_keep_all:
  "scan_containers nodes raw = keep_all nodes (candidates raw)"
proof (induction nodes raw rule: scan_containers.induct)
  case (2 nodes cid entries rest)
  then show ?case
    by (cases "scan_entries cid nodes entries")
       (simp_all add: keep_all_append scan_entries_keep_all [symmetric])
qed simp_all

text \<open>
  C3, as stated: in both paths a report that is a single record becomes a one-element
  sequence. It fails in \<^verbatim>\<open>get_topology\<close>, which skips every report that is not a list: a
  single-record report contributes no node there, while \<^verbatim>\<open>get_workers\<close> keeps it.
\<close>

theorem single_record_report_counterexample:
  "node_entries (PDict [(''node_id'', SInt 1)]) = []
   \<and> get_topology ''host'' (Inr [(''c1'', PDict [(''node_id'', SInt 1)])]) = Inr (TopologyOk [])
   \<and> worker_records (PDict [(''node_id'', SInt 1)]) = [PDict [(''node_id'', SInt 1)]]"
  by (simp add: get_topology_def)

text \<open>
  C3, amended. In the worker path a list report is passed through element by element, a
  single record becomes a one-element sequence, any other report an empty one. In the node
  path a list report contributes its elements that are records, in order, and any other
  report, a single record included, contributes nothing. Neither normalization raises, and
  each handler processes exactly the concatenation of what its containers contribute.
\<close>

theorem report_normalization:
  "worker_records (PList xs) = xs
   \<and> worker_records (PDict d) = [PDict d]
   \<and> worker_records (PAtom a) = []
   \<and> flatten_workers [] raw = concat (map (\<lambda>item. worker_records (snd item)) raw)
   \<and> node_entries (PList xs) = dict_items xs
   \<and> node_entries (PDict d) = []
   \<and> node_entries (PAtom a) = []
   \<and> scan_containers [] raw = keep_all [] (candidates raw)"
  by (simp add: flatten_workers_acc scan_containers_keep_all)














text \<open>Every item of \<^verbatim>\<open>nodes\<close> was filed under the key of a candidate that carried its entry.\<close>

lemma set_update_subset: "set (AList.update k v al) \<subseteq> insert (k, v) (set al)"
  by (induction al) auto

lemma keep_latest_origin:
  assumes "keep_latest cid nodes e = Inr nodes'"
  shows "set nodes' \<subseteq> insert (node_key cid e, e) (set nodes)"
proof (cases "map_of nodes (node_key cid e)")
  case None
  with assms have "nodes' = AList.update (node_key cid e) e nodes"
    by (simp add: keep_latest_def)
  then show ?thesis using set_update_subset by simp
next
  case (Some prev)
  with assms obtain newer where
    "nodes' = (if newer then AList.update (node_key cid e) e nodes else nodes)"
    by (auto simp: keep_latest_def and_then_def split: sum.splits)
  then show ?thesis
    using set_update_subset [of "node_key cid e" e nodes] by (cases newer) auto
qed

lemma keep_all_origin:
  "keep_all nodes cs = Inr nodes' \<Longrightarrow> item \<in> set nodes' \<Longrightarrow>
   item \<in> set nodes \<or> (\<exists>c\<in>set cs. item = (ckey c, snd c))"
proof (induction cs arbitrary: nodes)
  case Nil
  then show ?case by simp
next
  case (Cons c cs)
  obtain cid e where c: "c = (cid, e)" by (cases c)
  from Cons.prems(1) c obtain mid where mid: "keep_latest cid nodes e = Inr mid"
    and rest: "keep_all mid cs = Inr nodes'"
    by (auto simp: and_then_def split: sum.splits)
  from Cons.IH [OF rest Cons.prems(2)]
  show ?case
  proof
    assume "item \<in> set mid"
    with keep_latest_origin [OF mid] c show ?thesis by (auto simp: ckey_def)
  next
    assume "\<exists>c\<in>set cs. item = (ckey c, snd c)"
    then show ?thesis by auto
  qed
qed




text \<open>
  \<^verbatim>\<open>int\<close> undoes \<^verbatim>\<open>str\<close> on an integer within the digit limit; a string that \<^verbatim>\<open>int\<close> accepts
  consists of digits, whitespace, signs and underscores; and more digits than the limit
  are refused.
\<close>

lemma is_digit_digit_char: "d < 10 \<Longrightarrow> is_digit (digit_char d)"
  by (simp add: is_digit_def digit_char_def)

lemma digit_val_digit_char: "d < 10 \<Longrightarrow> digit_val (digit_char d) = d"
  by (simp add: digit_val_def digit_char_def)

lemma digits_of_digits: "c \<in> set (digits_of n) \<Longrightarrow> is_digit c"
proof (induction n arbitrary: c rule: digits_of.induct)
  case (1 n)
  show ?case
  proof (cases "n < 10")
    case True
    with "1.prems" show ?thesis
      by (simp add: digits_of.simps [of n] is_digit_digit_char)
  next
    case False
    with "1.prems" have "c \<in> set (digits_of (n div 10)) \<or> c = digit_char (n mod 10)"
      by (auto simp: digits_of.simps [of n])
    then show ?thesis
      using "1.IH" [OF False] by (auto simp: is_digit_digit_char)
  qed
qed

lemma digits_of_nonempty: "digits_of n \<noteq> []"
  by (simp add: digits_of.simps [of n])

lemma after_digit_digits:
  "\<forall>c\<in>set ds. is_digit c \<Longrightarrow> after_digit acc ds = Some (digits_value acc ds)"
  by (induction acc ds rule: after_digit.induct) (simp_all add: digits_value_def)

lemma parse_digits_digits:
  "ds \<noteq> [] \<Longrightarrow> \<forall>c\<in>set ds. is_digit c \<Longrightarrow> parse_digits ds = Some (digits_value 0 ds)"
  by (cases ds) (simp_all add: parse_digits_def after_digit_digits digits_value_def)

lemma digits_value_digits_of: "digits_value 0 (digits_of n) = n"
proof (induction n rule: digits_of.induct)
  case (1 n)
  show ?case
  proof (cases "n < 10")
    case True
    then show ?thesis
      by (simp add: digits_of.simps [of n] digits_value_def digit_val_digit_char)
  next
    case False
    with "1.IH" have "digits_value 0 (digits_of (n div 10)) = n div 10" by simp
    with False show ?thesis
      by (simp add: digits_of.simps [of n] digits_value_def digit_val_digit_char)
  qed
qed

lemma length_digits_of: "0 < d \<Longrightarrow> n < 10 ^ d \<Longrightarrow> length (digits_of n) \<le> d"
proof (induction n arbitrary: d rule: digits_of.induct)
  case (1 n)
  show ?case
  proof (cases "n < 10")
    case True
    with "1.prems" show ?thesis by (simp add: digits_of.simps [of n])
  next
    case False
    with "1.prems" obtain d' where d: "d = Suc d'" by (cases d) auto
    with False "1.prems" have "0 < d'" by (cases d') auto
    moreover from "1.prems" d have "n div 10 < 10 ^ d'"
      by (simp add: less_mult_imp_div_less mult.commute)
    ultimately have "length (digits_of (n div 10)) \<le> d'"
      using "1.IH" [OF False] by simp
    with False d show ?thesis by (simp add: digits_of.simps [of n])
  qed
qed

lemma max_str_digits_pos: "0 < max_str_digits"
  by (simp add: max_str_digits_def)

lemma digit_not_space: "is_digit c \<Longrightarrow> \<not> is_space c"
  by (auto simp: is_digit_def is_space_def)

lemma strip_id: "s \<noteq> [] \<Longrightarrow> \<not> is_space (hd s) \<Longrightarrow> \<not> is_space (last s) \<Longrightarrow> strip s = s"
proof -
  assume s: "s \<noteq> []" and h: "\<not> is_space (hd s)" and l: "\<not> is_space (last s)"
  from s h have "dropWhile is_space s = s" by (cases s) simp_all
  moreover from s l have "dropWhile is_space (rev s) = rev s"
    by (cases "rev s") (simp_all add: last_rev [symmetric] hd_rev)
  ultimately show ?thesis by (simp add: strip_def)
qed

lemma int_of_str_nat:
  assumes "n < 10 ^ max_str_digits"
  shows "int_of_str (digits_of n) = Some (int n)"
proof -
  let ?ds = "digits_of n"
  have ne: "?ds \<noteq> []" by (rule digits_of_nonempty)
  have dig: "\<forall>c\<in>set ?ds. is_digit c" using digits_of_digits by blast
  from ne dig have "\<not> is_space (hd ?ds)" "\<not> is_space (last ?ds)"
    by (simp_all add: digit_not_space)
  with ne have st: "strip ?ds = ?ds" by (rule strip_id)
  have "length ?ds \<le> max_str_digits"
    using max_str_digits_pos assms by (rule length_digits_of)
  moreover have "length (filter is_digit ?ds) \<le> length ?ds"
    by (rule length_filter_le)
  ultimately have lim: "\<not> length (filter is_digit ?ds) > max_str_digits"
    by linarith
  obtain c cs where cs: "?ds = c # cs" using ne by (cases ?ds) auto
  with dig have "is_digit c" by simp
  then have c: "c \<noteq> CHR ''-''" "c \<noteq> CHR ''+''" by (auto simp: is_digit_def)
  have "parse_digits ?ds = Some n"
    using parse_digits_digits [OF ne dig] by (simp add: digits_value_digits_of)
  with st lim cs c show ?thesis
    by (simp add: int_of_str_def Let_def)
qed

lemma int_of_str_neg:
  assumes "n < 10 ^ max_str_digits"
  shows "int_of_str (CHR ''-'' # digits_of n) = Some (- int n)"
proof -
  let ?ds = "digits_of n"
  have ne: "?ds \<noteq> []" by (rule digits_of_nonempty)
  have dig: "\<forall>c\<in>set ?ds. is_digit c" using digits_of_digits by blast
  from ne dig have "\<not> is_space (last (CHR ''-'' # ?ds))"
    by (simp add: digit_not_space)
  moreover have "\<not> is_space (hd (CHR ''-'' # ?ds))" by (simp add: is_space_def)
  ultimately have st: "strip (CHR ''-'' # ?ds) = CHR ''-'' # ?ds"
    by (intro strip_id) simp_all
  have "length ?ds \<le> max_str_digits"
    using max_str_digits_pos assms by (rule length_digits_of)
  moreover have "length (filter is_digit ?ds) \<le> length ?ds"
    by (rule length_filter_le)
  ultimately have "\<not> length (filter is_digit ?ds) > max_str_digits"
    by linarith
  moreover have "filter is_digit (CHR ''-'' # ?ds) = filter is_digit ?ds"
    by (simp add: is_digit_def)
  ultimately have lim: "\<not> length (filter is_digit (CHR ''-'' # ?ds)) > max_str_digits"
    by (simp del: filter.simps)
  have "parse_digits ?ds = Some n"
    using parse_digits_digits [OF ne dig] by (simp add: digits_value_digits_of)
  with st lim show ?thesis
    by (simp add: int_of_str_def Let_def)
qed

lemma int_of_str_str_of_int:
  assumes "\<bar>i\<bar> < 10 ^ max_str_digits"
  shows "int_of_str (str_of_int i) = Some i"
proof (cases "i < 0")
  case True
  with assms have "nat (- i) < 10 ^ max_str_digits"
    by (simp add: nat_less_iff)
  from int_of_str_neg [OF this] True show ?thesis by (simp add: str_of_int_def)
next
  case False
  with assms have "nat i < 10 ^ max_str_digits"
    by (simp add: nat_less_iff)
  from int_of_str_nat [OF this] False show ?thesis by (simp add: str_of_int_def)
qed

lemma after_digit_chars:
  "after_digit acc s = Some n \<Longrightarrow> c \<in> set s \<Longrightarrow> is_digit c \<or> c = CHR ''_''"
  by (induction acc s arbitrary: n rule: after_digit.induct) (auto split: if_splits)

lemma parse_digits_chars:
  "parse_digits s = Some n \<Longrightarrow> c \<in> set s \<Longrightarrow> is_digit c \<or> c = CHR ''_''"
  by (cases s) (auto simp: parse_digits_def split: if_splits dest: after_digit_chars)

lemma strip_chars: "c \<in> set s \<Longrightarrow> c \<in> set (strip s) \<or> is_space c"
proof -
  assume c: "c \<in> set s"
  let ?d = "dropWhile is_space s"
  from c have "c \<in> set (takeWhile is_space s) \<or> c \<in> set ?d"
    by (metis Un_iff set_append takeWhile_dropWhile_id)
  moreover have "c \<in> set (rev ?d) \<Longrightarrow>
      c \<in> set (takeWhile is_space (rev ?d)) \<or> c \<in> set (dropWhile is_space (rev ?d))"
    by (metis Un_iff set_append takeWhile_dropWhile_id)
  ultimately show ?thesis
    by (auto simp: strip_def dest: set_takeWhileD)
qed

lemma int_of_str_chars:
  assumes "int_of_str s = Some i" and "c \<in> set s"
  shows "is_digit c \<or> is_space c \<or> c = CHR ''+'' \<or> c = CHR ''-'' \<or> c = CHR ''_''"
proof -
  from strip_chars [OF assms(2)] show ?thesis
  proof
    assume c: "c \<in> set (strip s)"
    then obtain x xs where t: "strip s = x # xs" by (cases "strip s") auto
    from assms(1) t consider
        "x = CHR ''-''" "parse_digits xs \<noteq> None"
      | "x = CHR ''+''" "parse_digits xs \<noteq> None"
      | "parse_digits (x # xs) \<noteq> None"
      by (auto simp: int_of_str_def Let_def split: if_splits)
    then show ?thesis
    proof cases
      case 1
      with c t show ?thesis by (auto dest: parse_digits_chars)
    next
      case 2
      with c t show ?thesis by (auto dest: parse_digits_chars)
    next
      case 3
      with c t show ?thesis by (auto dest: parse_digits_chars)
    qed
  qed simp
qed

lemma filter_digit_dropWhile: "filter is_digit (dropWhile is_space s) = filter is_digit s"
  by (induction s) (auto dest: digit_not_space)

lemma filter_digit_strip: "filter is_digit (strip s) = filter is_digit s"
  by (simp add: strip_def filter_digit_dropWhile rev_filter [symmetric])

lemma int_of_str_limit:
  "length (filter is_digit s) > max_str_digits \<Longrightarrow> int_of_str s = None"
  by (simp add: int_of_str_def filter_digit_strip)

lemma small_within_limit: "\<bar>i :: int\<bar> < 10 ^ 2 \<Longrightarrow> \<bar>i\<bar> < 10 ^ max_str_digits"
proof -
  assume "\<bar>i\<bar> < 10 ^ 2"
  moreover have "(10 :: int) ^ 2 \<le> 10 ^ max_str_digits"
    by (rule power_increasing) (simp_all add: max_str_digits_def)
  ultimately show ?thesis by (rule less_le_trans)
qed

text \<open>
  C6. An item of the reconciled dict whose entry has no \<^verbatim>\<open>node_id\<close> (the field is missing, or
  null) is filed under the identifier of the container that reported the entry, and its
  rendering does not raise: the exposed \<^verbatim>\<open>node_id\<close> is what \<^verbatim>\<open>int\<close> makes of that identifier,
  and 0 when \<^verbatim>\<open>int\<close> refuses it. In particular an identifier that is the decimal writing of
  an integer exposes that integer, and an identifier with a character other than a digit,
  whitespace, a sign or an underscore, or with more than 4300 digits, exposes 0.
\<close>

theorem missing_node_id_identity:
  assumes "scan_containers [] raw = Inr nodes"
    and "(k, e) \<in> set nodes"
    and "dict_get e ''node_id'' = SNone"
  shows "(k, e) \<in> set (candidates raw)
    \<and> (\<exists>n. render_node h (k, e) = Inr n
          \<and> node_id n = (case int_of_str k of None \<Rightarrow> 0 | Some i \<Rightarrow> i)
          \<and> (\<forall>i. k = str_of_int i \<and> \<bar>i\<bar> < 10 ^ max_str_digits \<longrightarrow> node_id n = i)
          \<and> ((\<exists>c\<in>set k. \<not> is_digit c \<and> \<not> is_space c
                 \<and> c \<noteq> CHR ''+'' \<and> c \<noteq> CHR ''-'' \<and> c \<noteq> CHR ''_'') \<longrightarrow> node_id n = 0)
          \<and> (length (filter is_digit k) > max_str_digits \<longrightarrow> node_id n = 0))"
proof -
  from assms(1) have "keep_all [] (candidates raw) = Inr nodes"
    by (simp add: scan_containers_keep_all)
  from keep_all_origin [OF this assms(2)]
  obtain cid where c: "(cid, e) \<in> set (candidates raw)" "k = ckey (cid, e)" by auto
  from c(2) assms(3) have "k = cid" by (simp add: ckey_def node_key_def)
  with c have origin: "(k, e) \<in> set (candidates raw)" by simp
  let ?v = "case int_of_str k of None \<Rightarrow> 0 | Some i \<Rightarrow> i"
  have "numeric_node_id k e = Inr ?v"
    using assms(3) by (simp add: numeric_node_id_def split: option.splits)
  then obtain n where n: "render_node h (k, e) = Inr n" "node_id n = ?v"
    by (simp add: render_node_def)
  have decimal: "node_id n = i" if "k = str_of_int i \<and> \<bar>i\<bar> < 10 ^ max_str_digits" for i
    using that n(2) by (simp add: int_of_str_str_of_int)
  have foreign: "node_id n = 0"
    if "\<exists>c\<in>set k. \<not> is_digit c \<and> \<not> is_space c
          \<and> c \<noteq> CHR ''+'' \<and> c \<noteq> CHR ''-'' \<and> c \<noteq> CHR ''_''"
  proof (cases "int_of_str k")
    case None
    with n(2) show ?thesis by simp
  next
    case (Some i)
    with that int_of_str_chars [of k i] show ?thesis by blast
  qed
  have long: "node_id n = 0" if "length (filter is_digit k) > max_str_digits"
    using int_of_str_limit [OF that] n(2) by simp
  from origin n decimal foreign long show ?thesis by blast
qed

text \<open>A container id that is not a number is exposed as node 0, the container id
  \<^verbatim>\<open>"42"\<close> as node 42.\<close>

theorem missing_node_id_identity_witness:
  "scan_containers [] legacy_raw = Inr [(''node-a'', [(''ip_address'', SStr ''10.0.0.7'')])]
   \<and> dict_get [(''ip_address'', SStr ''10.0.0.7'')] ''node_id'' = SNone
   \<and> (''node-a'', [(''ip_address'', SStr ''10.0.0.7'')]) \<in> set (candidates legacy_raw)
   \<and> (\<exists>n. render_node ''host'' (''node-a'', [(''ip_address'', SStr ''10.0.0.7'')]) = Inr n
         \<and> node_id n = 0)
   \<and> scan_containers [] numbered_raw = Inr [(''42'', [(''ip_address'', SStr ''10.0.0.42'')])]
   \<and> dict_get [(''ip_address'', SStr ''10.0.0.42'')] ''node_id'' = SNone
   \<and> ''42'' = str_of_int 42
   \<and> (\<exists>n. render_node ''host'' (''42'', [(''ip_address'', SStr ''10.0.0.42'')]) = Inr n
         \<and> node_id n = 42)"
proof -
  let ?e = "[(''ip_address'', SStr ''10.0.0.7'')]"
  let ?f = "[(''ip_address'', SStr ''10.0.0.42'')]"
  have scan: "scan_containers [] legacy_raw = Inr [(''node-a'', ?e)]"
    by (simp add: legacy_raw_def keep_latest_def node_key_def dict_get_def)
  have mem: "(''node-a'', ?e) \<in> set [(''node-a'', ?e)]"
    by simp
  have none: "dict_get ?e ''node_id'' = SNone"
    by (simp add: dict_get_def)
  have letter: "\<exists>c\<in>set ''node-a''. \<not> is_digit c \<and> \<not> is_space c
      \<and> c \<noteq> CHR ''+'' \<and> c \<noteq> CHR ''-'' \<and> c \<noteq> CHR ''_''"
    by (simp add: is_digit_def is_space_def)
  from missing_node_id_identity [OF scan mem none, of "''host''"] letter
  have first: "(''node-a'', ?e) \<in> set (candidates legacy_raw)
     \<and> (\<exists>n. render_node ''host'' (''node-a'', ?e) = Inr n \<and> node_id n = 0)"
    by blast
  have scan': "scan_containers [] numbered_raw = Inr [(''42'', ?f)]"
    by (simp add: numbered_raw_def keep_latest_def node_key_def dict_get_def)
  have mem': "(''42'', ?f) \<in> set [(''42'', ?f)]"
    by simp
  have none': "dict_get ?f ''node_id'' = SNone"
    by (simp add: dict_get_def)
  have written: "''42'' = str_of_int 42"
    by code_simp
  have small: "\<bar>42 :: int\<bar> < 10 ^ max_str_digits"
    by (rule small_within_limit) simp
  from missing_node_id_identity [OF scan' mem' none', of "''host''"] written small
  have second: "\<exists>n. render_node ''host'' (''42'', ?f) = Inr n \<and> node_id n = 42"
    by blast
  from scan none first scan' none' written second show ?thesis by blast
qed





section \<open>Properties of the pool listing\<close>

lemma first_config_none:
  "\<not> list_ex (\<lambda>c. case c of None \<Rightarrow> False | Some path \<Rightarrow> path \<noteq> [] \<and> map_of fs path \<noteq> None) cands
   \<Longrightarrow> first_config fs cands = Inr (YAtom SNone)"
  by (induction fs cands rule: first_config.induct) (auto split: option.splits)

lemma load_config_not_found: "\<not> config_found env \<Longrightarrow> load_config env = Inr (YAtom SNone)"
  unfolding config_found_def load_config_def by (rule first_config_none)

lemma collect_pools_mappings: "collect_pools (map YMap entries) = Inr (map descriptor entries)"
  by (induction entries) simp_all

lemma get_pools_not_found_iff:
  "get_pools env = Inr (PoolsNotFound ''config not found'')
   \<longleftrightarrow> load_config env = Inr (YAtom SNone)"
proof (cases "load_config env")
  case (Inl e)
  then show ?thesis by (simp add: get_pools_def)
next
  case (Inr cfg)
  show ?thesis
  proof (cases cfg)
    case (YAtom a)
    with Inr show ?thesis by (simp add: get_pools_def)
  next
    case (YList xs)
    with Inr show ?thesis by (simp add: get_pools_def)
  next
    case (YMap kvs)
    with Inr show ?thesis
      by (auto simp: get_pools_def and_then_def split: sum.splits)
  qed
qed

text \<open>
  C9, as stated: the "not found" result is returned exactly when no config source is found.
  It fails for a config file that is found and empty: \<^verbatim>\<open>yaml.safe_load\<close> gives \<^verbatim>\<open>None\<close> for
  it, which \<^verbatim>\<open>get_pools\<close> takes for the absence of a file.
\<close>

theorem empty_config_counterexample:
  "config_found empty_doc_env
   \<and> get_pools empty_doc_env = Inr (PoolsNotFound ''config not found'')"
  by (simp add: empty_doc_env_def config_found_def config_candidates_def get_pools_def
        load_config_def)

text \<open>
  C9, amended. \<^verbatim>\<open>get_pools\<close> returns the "not found" result exactly when \<^verbatim>\<open>_load_config\<close>
  returns \<^verbatim>\<open>None\<close>, which it does whenever no config source is found (and for a found
  document that is empty). When the document is a mapping whose compose section, after
  the \<^verbatim>\<open>or []\<close> default, is a list of mappings, it returns one pool descriptor per entry, in
  order, each of \<^verbatim>\<open>mod_name\<close>, \<^verbatim>\<open>pool_name\<close>, \<^verbatim>\<open>pool_id\<close>, \<^verbatim>\<open>pool_query\<close> being the entry's
  value, or the empty string when the entry lacks it.
\<close>

theorem pools_listing:
  "(get_pools env = Inr (PoolsNotFound ''config not found'')
      \<longleftrightarrow> load_config env = Inr (YAtom SNone))
   \<and> (\<not> config_found env \<longrightarrow> get_pools env = Inr (PoolsNotFound ''config not found''))
   \<and> (load_config env = Inr (YMap cfg) \<and> compose_section cfg = YList (map YMap entries)
        \<longrightarrow> get_pools env = Inr (PoolsOk (map descriptor entries)))
   \<and> mod_name (descriptor entry) =
       (case map_of entry ''mod_name'' of None \<Rightarrow> YAtom (SStr []) | Some v \<Rightarrow> v)
   \<and> pool_name (descriptor entry) =
       (case map_of entry ''pool_name'' of None \<Rightarrow> YAtom (SStr []) | Some v \<Rightarrow> v)
   \<and> pool_id (descriptor entry) =
       (case map_of entry ''pool_id'' of None \<Rightarrow> YAtom (SStr []) | Some v \<Rightarrow> v)
   \<and> pool_query (descriptor entry) =
       (case map_of entry ''pool_query'' of None \<Rightarrow> YAtom (SStr []) | Some v \<Rightarrow> v)"
proof -
  have absent: "get_pools env = Inr (PoolsNotFound ''config not found'')"
    if "\<not> config_found env"
    using load_config_not_found [OF that] by (simp add: get_pools_not_found_iff)
  have listed: "get_pools env = Inr (PoolsOk (map descriptor entries))"
    if "load_config env = Inr (YMap cfg)" "compose_section cfg = YList (map YMap entries)"
    using that by (simp add: get_pools_def collect_pools_mappings)
  show ?thesis
    using absent listed get_pools_not_found_iff [of env]
    by (simp add: descriptor_def yaml_get_default_def)
qed

theorem pools_listing_witness:
  "\<not> config_found no_config_env
   \<and> get_pools no_config_env = Inr (PoolsNotFound ''config not found'')
   \<and> load_config compose_env =
       Inr (YMap [(''compose'',
              YList [YMap [(''mod_name'', YAtom (SStr ''chimaera_bdev'')),
                           (''pool_name'', YAtom (SStr ''ram'')),
                           (''pool_id'', YAtom (SStr ''300.0''))]])])
   \<and> get_pools compose_env =
       Inr (PoolsOk [\<lparr> mod_name = YAtom (SStr ''chimaera_bdev''),
                       pool_name = YAtom (SStr ''ram''),
                       pool_id = YAtom (SStr ''300.0''),
                       pool_query = YAtom (SStr []) \<rparr>])"
proof -
  let ?entry = "[(''mod_name'', YAtom (SStr ''chimaera_bdev'')),
                 (''pool_name'', YAtom (SStr ''ram'')),
                 (''pool_id'', YAtom (SStr ''300.0''))]"
  let ?cfg = "[(''compose'', YList [YMap ?entry])]"
  have absent: "\<not> config_found no_config_env"
    by (simp add: no_config_env_def config_found_def config_candidates_def)
  have loaded: "load_config compose_env = Inr (YMap ?cfg)"
    by (simp add: compose_env_def load_config_def config_candidates_def)
  have compose: "compose_section ?cfg = YList (map YMap [?entry])"
    by (simp add: compose_section_def)
  from pools_listing [of no_config_env] absent
  have "get_pools no_config_env = Inr (PoolsNotFound ''config not found'')"
    by blast
  moreover from pools_listing [of compose_env ?cfg "[?entry]"] loaded compose
  have "get_pools compose_env = Inr (PoolsOk (map descriptor [?entry]))"
    by blast
  ultimately show ?thesis
    using absent loaded by (simp add: descriptor_def yaml_get_default_def)
qed

text \<open>
  C10, as stated: every config source that is found and has no compose section gives a
  successful, empty pool list. It fails for a found document that is empty, which has no
  compose section and gets the "not found" result.
\<close>

theorem empty_home_config_counterexample:
  "config_found home_empty_env
   \<and> load_config home_empty_env = Inr (YAtom SNone)
   \<and> get_pools home_empty_env = Inr (PoolsNotFound ''config not found'')"
  by (simp add: home_empty_env_def config_found_def config_candidates_def get_pools_def
        load_config_def)

text \<open>
  C10, amended. For every config source that is found and is a mapping, when the compose
  entry of that mapping is missing or null, \<^verbatim>\<open>get_pools\<close> returns the successful result
  with an empty pool list.
\<close>

theorem pools_without_compose:
  assumes "load_config env = Inr (YMap cfg)"
    and "map_of cfg ''compose'' = None \<or> map_of cfg ''compose'' = Some (YAtom SNone)"
  shows "config_found env \<and> get_pools env = Inr (PoolsOk [])"
proof -
  have "config_found env"
    using assms(1) load_config_not_found [of env] by auto
  moreover have "compose_section cfg = YList []"
    using assms(2) by (auto simp: compose_section_def)
  then have "get_pools env = Inr (PoolsOk [])"
    using assms(1) by (simp add: get_pools_def)
  ultimately show ?thesis by simp
qed

theorem pools_without_compose_witness:
  "load_config no_compose_env = Inr (YMap [(''networking'', YMap [(''port'', YAtom (SInt 9413))])])
   \<and> map_of [(''networking'', YMap [(''port'', YAtom (SInt 9413))])] ''compose'' = None
   \<and> config_found no_compose_env
   \<and> get_pools no_compose_env = Inr (PoolsOk [])"
proof -
  have loaded: "load_config no_compose_env
      = Inr (YMap [(''networking'', YMap [(''port'', YAtom (SInt 9413))])])"
    by (simp add: no_compose_env_def load_config_def config_candidates_def)
  have missing: "map_of [(''networking'', YMap [(''port'', YAtom (SInt 9413))])] ''compose'' = None
      \<or> map_of [(''networking'', YMap [(''port'', YAtom (SInt 9413))])] ''compose''
          = Some (YAtom SNone)"
    by simp
  from pools_without_compose [OF loaded missing] loaded show ?thesis by simp
qed

end
